theory Spec2Isabelle
  imports
    Main
    "HOL-Library.AList"
    "HOL-Library.Multiset"
    "HOL-Library.Sorting_Algorithms"
    "HOL-Library.List_Lexorder"
    "HOL-Library.Char_ord"
begin

section \<open>Data model of the merge engine\<close>

text \<open>
  The types of \<^verbatim>\<open>src/types/index.ts\<close> that the merge engine uses. A TypeScript
  value of type \<^verbatim>\<open>string | undefined\<close> is a \<^typ>\<open>string option\<close>, with
  \<^term>\<open>None\<close> for \<^verbatim>\<open>undefined\<close>; the strict comparisons \<^verbatim>\<open>===\<close> and
  \<^verbatim>\<open>!==\<close> on such values are equality and disequality of options.
\<close>

datatype ConflictType = divergent_edit | edit_vs_delete | new_key_collision

datatype AutoMergeAction =
  added_from_local | added_from_remote | deleted | updated_from_local | updated_from_remote

record ConflictEntry =
  ce_key :: string
  conflictType :: ConflictType
  baseValue :: "string option"
  localValue :: "string option"
  remoteValue :: "string option"

record AutoMergeEntry =
  am_key :: string
  action :: AutoMergeAction
  am_value :: "string option"

datatype MergeStatus = clean | auto_merged | conflicted

text \<open>
  A JavaScript \<^verbatim>\<open>Map<string, string>\<close> is a list of key/value pairs in insertion
  order: \<^verbatim>\<open>get\<close> is \<^const>\<open>map_of\<close>, \<^verbatim>\<open>set\<close> is \<^const>\<open>AList.update\<close>
  (an existing key keeps its position, a new key goes to the end), \<^verbatim>\<open>delete\<close> is
  \<^const>\<open>AList.delete\<close>, and \<^verbatim>\<open>keys()\<close> is \<^term>\<open>map fst\<close>.
\<close>

type_synonym StrMap = "(string \<times> string) list"

record FileMergeResult =
  fileName :: string
  status :: MergeStatus
  merged :: StrMap
  conflicts :: "ConflictEntry list"
  autoMerged :: "AutoMergeEntry list"

datatype ResolutionChoice = Local | Remote | Base | Manual | Skip

record ConflictResolution =
  res_key :: string
  choice :: ResolutionChoice
  manualValue :: "string option"

text \<open>The result of merging a single key (\<^verbatim>\<open>KeyMergeResult\<close> in \<^verbatim>\<open>merge.ts\<close>).\<close>

datatype KeyMergeResult =
  is_unchanged: KUnchanged "string option"
  | is_auto_merged: KAutoMerged AutoMergeAction "string option"
  | is_conflict: KConflict ConflictType

section \<open>The key reconciliation rule\<close>

definition mergeKey ::
  "string \<Rightarrow> string option \<Rightarrow> string option \<Rightarrow> string option \<Rightarrow> KeyMergeResult" where
  "mergeKey key' baseVal localVal remoteVal =
    (let localExists = (localVal \<noteq> None);
         remoteExists = (remoteVal \<noteq> None);
         baseExists = (baseVal \<noteq> None)
     in
     if \<not> baseExists then
       (if localExists \<and> remoteExists then
          (if localVal = remoteVal then KUnchanged localVal
           else KConflict new_key_collision)
        else if localExists \<and> \<not> remoteExists then KAutoMerged added_from_local localVal
        else if \<not> localExists \<and> remoteExists then KAutoMerged added_from_remote remoteVal
        else KUnchanged None)
     else
       (let localChanged = (localVal \<noteq> baseVal);
            remoteChanged = (remoteVal \<noteq> baseVal);
            localDeleted = (\<not> localExists);
            remoteDeleted = (\<not> remoteExists)
        in
        if \<not> localChanged \<and> \<not> remoteChanged \<and> \<not> localDeleted \<and> \<not> remoteDeleted
          then KUnchanged baseVal
        else if localDeleted \<and> remoteDeleted then KAutoMerged deleted None
        else if localDeleted \<and> \<not> remoteChanged then KAutoMerged deleted None
        else if remoteDeleted \<and> \<not> localChanged then KAutoMerged deleted None
        else if localDeleted \<and> remoteChanged then KConflict edit_vs_delete
        else if remoteDeleted \<and> localChanged then KConflict edit_vs_delete
        else if localChanged \<and> \<not> remoteChanged then KAutoMerged updated_from_local localVal
        else if \<not> localChanged \<and> remoteChanged then KAutoMerged updated_from_remote remoteVal
        else if localVal = remoteVal then KUnchanged localVal
        else KConflict divergent_edit))"

text \<open>
  The decision table of the specification (section 4.1), written from its words: the rows
  are tried in the order in which the specification lists them, and the result is
  \<^term>\<open>None\<close> where no row applies.
\<close>

definition resolve ::
  "string \<Rightarrow> string option \<Rightarrow> string option \<Rightarrow> string option \<Rightarrow> KeyMergeResult option" where
  "resolve key' baseVal localVal remoteVal =
    (let localPresent = (localVal \<noteq> None);
         remotePresent = (remoteVal \<noteq> None)
     in
     if baseVal = None then
       (if localPresent \<and> remotePresent \<and> localVal = remoteVal
          then Some (KUnchanged localVal)
        else if localPresent \<and> remotePresent \<and> localVal \<noteq> remoteVal
          then Some (KConflict new_key_collision)
        else if localPresent \<and> \<not> remotePresent
          then Some (KAutoMerged added_from_local localVal)
        else if remotePresent \<and> \<not> localPresent
          then Some (KAutoMerged added_from_remote remoteVal)
        else None)
     else
       (let localChanged = (localVal \<noteq> baseVal);
            remoteChanged = (remoteVal \<noteq> baseVal);
            localDeleted = (localVal = None);
            remoteDeleted = (remoteVal = None)
        in
        if \<not> localChanged \<and> \<not> remoteChanged \<and> \<not> localDeleted \<and> \<not> remoteDeleted
          then Some (KUnchanged baseVal)
        else if localDeleted \<and> remoteDeleted
          then Some (KAutoMerged deleted None)
        else if localDeleted \<and> \<not> remoteDeleted \<and> \<not> remoteChanged
          then Some (KAutoMerged deleted None)
        else if remoteDeleted \<and> \<not> localDeleted \<and> \<not> localChanged
          then Some (KAutoMerged deleted None)
        else if localDeleted \<and> remoteChanged \<and> \<not> remoteDeleted
          then Some (KConflict edit_vs_delete)
        else if remoteDeleted \<and> localChanged \<and> \<not> localDeleted
          then Some (KConflict edit_vs_delete)
        else if localChanged \<and> \<not> remoteChanged
          then Some (KAutoMerged updated_from_local localVal)
        else if remoteChanged \<and> \<not> localChanged
          then Some (KAutoMerged updated_from_remote remoteVal)
        else if localChanged \<and> remoteChanged \<and> localVal = remoteVal
          then Some (KUnchanged localVal)
        else if localChanged \<and> remoteChanged \<and> localVal \<noteq> remoteVal
          then Some (KConflict divergent_edit)
        else None))"

section \<open>The file reconciliation driver\<close>

text \<open>
  \<^verbatim>\<open>new Set([...])\<close> keeps the first occurrence of every element, in insertion
  order; iterating over the set visits the elements in that order.
\<close>

definition Set_add :: "'a \<Rightarrow> 'a list \<Rightarrow> 'a list" where
  "Set_add x s = (if x \<in> set s then s else s @ [x])"

definition new_Set :: "'a list \<Rightarrow> 'a list" where
  "new_Set xs = foldl (\<lambda>s x. Set_add x s) [] xs"

text \<open>\<^verbatim>\<open>base?.keys() ?? []\<close> and \<^verbatim>\<open>base?.get(key)\<close> for a base that may be null.\<close>

definition base_keys :: "StrMap option \<Rightarrow> string list" where
  "base_keys base = (case base of None \<Rightarrow> [] | Some b \<Rightarrow> map fst b)"

definition base_get :: "StrMap option \<Rightarrow> string \<Rightarrow> string option" where
  "base_get base key' = (case base of None \<Rightarrow> None | Some b \<Rightarrow> map_of b key')"

definition allKeys :: "StrMap option \<Rightarrow> StrMap \<Rightarrow> StrMap \<Rightarrow> string list" where
  "allKeys base local remote = new_Set (base_keys base @ map fst local @ map fst remote)"

text \<open>
  \<^verbatim>\<open>if (v !== undefined) merged.set(key, v)\<close>, the only way the driver writes to
  \<^verbatim>\<open>merged\<close>.
\<close>

definition set_if_defined :: "string \<Rightarrow> string option \<Rightarrow> StrMap \<Rightarrow> StrMap" where
  "set_if_defined key' v m = (case v of None \<Rightarrow> m | Some x \<Rightarrow> AList.update key' x m)"

text \<open>
  One iteration of the loop over \<^verbatim>\<open>allKeys\<close>; the state is the triple of the three
  containers the loop fills: \<^verbatim>\<open>merged\<close>, \<^verbatim>\<open>conflicts\<close> and \<^verbatim>\<open>autoMerged\<close>.
\<close>

definition mergeStep ::
  "StrMap option \<Rightarrow> StrMap \<Rightarrow> StrMap
    \<Rightarrow> StrMap \<times> ConflictEntry list \<times> AutoMergeEntry list \<Rightarrow> string
    \<Rightarrow> StrMap \<times> ConflictEntry list \<times> AutoMergeEntry list" where
  "mergeStep base local remote st key' =
    (case st of (mergedAcc, conflictsAcc, autoMergedAcc) \<Rightarrow>
      (let baseVal = base_get base key';
           localVal = map_of local key';
           remoteVal = map_of remote key'
       in
       case mergeKey key' baseVal localVal remoteVal of
         KConflict ct \<Rightarrow>
           (set_if_defined key' localVal mergedAcc,
            conflictsAcc @ [\<lparr>ce_key = key', conflictType = ct, baseValue = baseVal,
                              localValue = localVal, remoteValue = remoteVal\<rparr>],
            autoMergedAcc)
       | KAutoMerged a v \<Rightarrow>
           (set_if_defined key' v mergedAcc,
            conflictsAcc,
            autoMergedAcc @ [\<lparr>am_key = key', action = a, am_value = v\<rparr>])
       | KUnchanged v \<Rightarrow>
           (set_if_defined key' v mergedAcc, conflictsAcc, autoMergedAcc)))"

definition mergeLoop ::
  "StrMap option \<Rightarrow> StrMap \<Rightarrow> StrMap \<Rightarrow> string list
    \<Rightarrow> StrMap \<times> ConflictEntry list \<times> AutoMergeEntry list" where
  "mergeLoop base local remote keys = foldl (mergeStep base local remote) ([], [], []) keys"

definition threeWayMergeEnvFile ::
  "string \<Rightarrow> StrMap option \<Rightarrow> StrMap \<Rightarrow> StrMap \<Rightarrow> FileMergeResult" where
  "threeWayMergeEnvFile fileName' base local remote =
    (case mergeLoop base local remote (allKeys base local remote) of
      (mergedAcc, conflictsAcc, autoMergedAcc) \<Rightarrow>
        \<lparr>fileName = fileName',
         status = (if length conflictsAcc > 0 then conflicted
                   else if length autoMergedAcc > 0 then auto_merged else clean),
         merged = mergedAcc,
         conflicts = conflictsAcc,
         autoMerged = autoMergedAcc\<rparr>)"

section \<open>The conflict resolution applier\<close>

text \<open>\<^verbatim>\<open>if (v !== undefined) result.set(key, v) else result.delete(key)\<close>.\<close>

definition set_or_delete :: "string \<Rightarrow> string option \<Rightarrow> StrMap \<Rightarrow> StrMap" where
  "set_or_delete key' v m =
    (case v of None \<Rightarrow> AList.delete key' m | Some x \<Rightarrow> AList.update key' x m)"

text \<open>The body of the loop over \<^verbatim>\<open>resolutions\<close>, on the copy \<^verbatim>\<open>result\<close>.\<close>

definition applyResolution ::
  "ConflictEntry list \<Rightarrow> StrMap \<Rightarrow> ConflictResolution \<Rightarrow> StrMap" where
  "applyResolution cs result resolution =
    (case find (\<lambda>c. ce_key c = res_key resolution) cs of
       None \<Rightarrow> result
     | Some conflict \<Rightarrow>
        (case choice resolution of
           Local \<Rightarrow> set_or_delete (res_key resolution) (localValue conflict) result
         | Remote \<Rightarrow> set_or_delete (res_key resolution) (remoteValue conflict) result
         | Base \<Rightarrow> set_or_delete (res_key resolution) (baseValue conflict) result
         | Manual \<Rightarrow> set_or_delete (res_key resolution) (manualValue resolution) result
         | Skip \<Rightarrow> result))"

definition applyResolutions :: "FileMergeResult \<Rightarrow> ConflictResolution list \<Rightarrow> StrMap" where
  "applyResolutions mergeResult resolutions =
    foldl (applyResolution (conflicts mergeResult)) (merged mergeResult) resolutions"

text \<open>
  In \<^verbatim>\<open>allConflictsResolved\<close> the expression
  \<^verbatim>\<open>resolutions.find(...)?.choice !== "skip"\<close> is true when \<^verbatim>\<open>find\<close> returns
  \<^verbatim>\<open>undefined\<close>.
\<close>

definition allConflictsResolved :: "FileMergeResult \<Rightarrow> ConflictResolution list \<Rightarrow> bool" where
  "allConflictsResolved mergeResult resolutions =
    (let resolvedKeys = set (map res_key resolutions) in
     list_all
       (\<lambda>conflict.
          ce_key conflict \<in> resolvedKeys \<and>
          (case find (\<lambda>r. res_key r = ce_key conflict) resolutions of
             None \<Rightarrow> True
           | Some r \<Rightarrow> choice r \<noteq> Skip))
       (conflicts mergeResult))"

datatype Strategy = strategy_local | strategy_remote

definition resolveAllConflicts :: "FileMergeResult \<Rightarrow> Strategy \<Rightarrow> ConflictResolution list" where
  "resolveAllConflicts mergeResult strategy =
    map (\<lambda>conflict.
          \<lparr>res_key = ce_key conflict,
           choice = (if strategy = strategy_local then Local else Remote),
           manualValue = None\<rparr>)
      (conflicts mergeResult)"

section \<open>The applier on a store\<close>

text \<open>
  \<^verbatim>\<open>applyResolutions\<close> starts with \<^verbatim>\<open>const result = new Map(mergeResult.merged)\<close>
  and then calls \<^verbatim>\<open>result.set\<close> and \<^verbatim>\<open>result.delete\<close>. Whether the caller's
  \<^verbatim>\<open>FileMergeResult\<close> is changed by that depends on which object these calls write to, so
  the containers live in a store here: a list of cells, an address being an index, and a
  \<^verbatim>\<open>FileMergeResult\<close> holding the addresses of its map and of its two arrays.
  \<^verbatim>\<open>new Map(m)\<close> appends a cell with a copy of the entries of \<^verbatim>\<open>m\<close>. A read at an
  address that holds no container of the expected kind is \<^term>\<open>None\<close>; the TypeScript
  types exclude it.
\<close>

datatype cell =
  MapCell StrMap
  | ConflictsCell "ConflictEntry list"
  | AutoMergedCell "AutoMergeEntry list"

type_synonym heap = "cell list"

record FileMergeResultRef =
  ref_fileName :: string
  ref_status :: MergeStatus
  ref_merged :: nat
  ref_conflicts :: nat
  ref_autoMerged :: nat

definition read_Map :: "heap \<Rightarrow> nat \<Rightarrow> StrMap option" where
  "read_Map h a =
    (if a < length h then (case h ! a of MapCell m \<Rightarrow> Some m | _ \<Rightarrow> None) else None)"

definition read_conflicts :: "heap \<Rightarrow> nat \<Rightarrow> ConflictEntry list option" where
  "read_conflicts h a =
    (if a < length h then (case h ! a of ConflictsCell cs \<Rightarrow> Some cs | _ \<Rightarrow> None) else None)"

definition read_autoMerged :: "heap \<Rightarrow> nat \<Rightarrow> AutoMergeEntry list option" where
  "read_autoMerged h a =
    (if a < length h then (case h ! a of AutoMergedCell as \<Rightarrow> Some as | _ \<Rightarrow> None) else None)"

text \<open>The \<^verbatim>\<open>FileMergeResult\<close> value that a reference denotes in a store.\<close>

definition deref :: "heap \<Rightarrow> FileMergeResultRef \<Rightarrow> FileMergeResult option" where
  "deref h r =
    (case (read_Map h (ref_merged r), read_conflicts h (ref_conflicts r),
           read_autoMerged h (ref_autoMerged r)) of
       (Some m, Some cs, Some as) \<Rightarrow>
         Some \<lparr>fileName = ref_fileName r, status = ref_status r, merged = m,
               conflicts = cs, autoMerged = as\<rparr>
     | _ \<Rightarrow> None)"

text \<open>
  One iteration of the loop: \<^verbatim>\<open>mergeResult.conflicts.find\<close> reads the conflicts array,
  and every branch of the \<^verbatim>\<open>switch\<close> writes to the map at \<^verbatim>\<open>result\<close> only.
\<close>

definition applyResolution_heap ::
  "FileMergeResultRef \<Rightarrow> nat \<Rightarrow> heap \<Rightarrow> ConflictResolution \<Rightarrow> heap option" where
  "applyResolution_heap mergeResult result h resolution =
    (case read_conflicts h (ref_conflicts mergeResult) of
       None \<Rightarrow> None
     | Some cs \<Rightarrow>
        (case read_Map h result of
           None \<Rightarrow> None
         | Some m \<Rightarrow> Some (h[result := MapCell (applyResolution cs m resolution)])))"

fun applyLoop_heap ::
  "FileMergeResultRef \<Rightarrow> nat \<Rightarrow> heap \<Rightarrow> ConflictResolution list \<Rightarrow> heap option" where
  "applyLoop_heap mergeResult result h [] = Some h"
| "applyLoop_heap mergeResult result h (resolution # rest) =
    (case applyResolution_heap mergeResult result h resolution of
       None \<Rightarrow> None
     | Some h' \<Rightarrow> applyLoop_heap mergeResult result h' rest)"

text \<open>The call returns the address of \<^verbatim>\<open>result\<close> and the store it leaves.\<close>

definition applyResolutions_heap ::
  "heap \<Rightarrow> FileMergeResultRef \<Rightarrow> ConflictResolution list \<Rightarrow> (nat \<times> heap) option" where
  "applyResolutions_heap h mergeResult resolutions =
    (case read_Map h (ref_merged mergeResult) of
       None \<Rightarrow> None
     | Some m \<Rightarrow>
        (let result = length h; h1 = h @ [MapCell m] in
         case applyLoop_heap mergeResult result h1 resolutions of
           None \<Rightarrow> None
         | Some h' \<Rightarrow> Some (result, h')))"

section \<open>The manifest fingerprint\<close>

record ManifestSource =
  machineName :: string
  os :: string
  projectPath :: string

record FileSource = ManifestSource +
  filePath :: string

record FileEntry =
  name :: string
  hash :: string
  fe_size :: int
  updatedAt :: string
  fe_source :: "FileSource option"

text \<open>
  \<^verbatim>\<open>version\<close> is a JavaScript number. The fingerprint only passes it on to
  \<^verbatim>\<open>JSON.stringify\<close>, so the type of numbers is a parameter \<open>'n\<close> of the manifest.
\<close>

record 'n ProjectManifest =
  version :: 'n
  projectName :: string
  files :: "FileEntry list"
  pm_source :: "ManifestSource option"

text \<open>
  \<^verbatim>\<open>JSON.stringify\<close> of the ECMAScript library, for the values the fingerprint is made
  of: objects with their fields in insertion order, arrays, strings and numbers. A string
  is written between double quotes, with the double quote, the backslash and the control
  characters below U+0020 escaped. The text of a number (its \<^verbatim>\<open>Number::toString\<close>, or
  \<^verbatim>\<open>null\<close> when it is not finite) depends on its floating-point value; it is the
  parameter \<open>numberToString\<close>.
\<close>

datatype 'n json =
  JNumber 'n | JString string | JArray "'n json list" | JObject "(string \<times> 'n json) list"

definition digit_char :: "nat \<Rightarrow> char" where
  "digit_char n = ''0123456789abcdef'' ! n"

definition escape_char :: "char \<Rightarrow> string" where
  "escape_char c =
    (if c = CHR 0x22 then [CHR 0x5C, CHR 0x22]
     else if c = CHR 0x5C then [CHR 0x5C, CHR 0x5C]
     else if c = CHR 0x08 then [CHR 0x5C, CHR ''b'']
     else if c = CHR 0x0C then [CHR 0x5C, CHR ''f'']
     else if c = CHR 0x0A then [CHR 0x5C, CHR ''n'']
     else if c = CHR 0x0D then [CHR 0x5C, CHR ''r'']
     else if c = CHR 0x09 then [CHR 0x5C, CHR ''t'']
     else if (of_char c :: nat) < 0x20
       then [CHR 0x5C, CHR ''u'', CHR ''0'', CHR ''0'',
             digit_char (of_char c div 16), digit_char (of_char c mod 16)]
     else [c])"

definition JSON_quote :: "string \<Rightarrow> string" where
  "JSON_quote s = [CHR 0x22] @ concat (map escape_char s) @ [CHR 0x22]"

fun join_commas :: "string list \<Rightarrow> string" where
  "join_commas [] = []"
| "join_commas [x] = x"
| "join_commas (x # y # ys) = x @ CHR '','' # join_commas (y # ys)"

fun JSON_stringify :: "('n \<Rightarrow> string) \<Rightarrow> 'n json \<Rightarrow> string" where
  "JSON_stringify numberToString (JNumber n) = numberToString n"
| "JSON_stringify numberToString (JString s) = JSON_quote s"
| "JSON_stringify numberToString (JArray xs) =
     CHR ''['' # join_commas (map (JSON_stringify numberToString) xs) @ [CHR '']'']"
| "JSON_stringify numberToString (JObject fs) =
     CHR ''{'' #
     join_commas
       (map (\<lambda>(k, v). JSON_quote k @ CHR '':'' # JSON_stringify numberToString v) fs)
     @ [CHR ''}'']"

text \<open>
  \<^verbatim>\<open>getManifestFingerprint\<close>. The comparison \<^verbatim>\<open>a.name.localeCompare(b.name)\<close> is
  the collation of the host's locale and is not part of the repository, so it is a
  parameter: a \<^typ>\<open>string comparator\<close>, that is, a consistent comparison function
  (ECMA-262 requires \<^verbatim>\<open>localeCompare\<close> to be one), with \<^const>\<open>Less\<close>,
  \<^const>\<open>Equiv\<close> and \<^const>\<open>Greater\<close> for a negative result, zero and a positive result.
  \<^verbatim>\<open>Array.prototype.sort\<close> is stable, and for a consistent comparison function every
  stable sort returns the same array; \<^const>\<open>Sorting_Algorithms.sort\<close> is the stable
  insertion sort.
\<close>

definition getManifestFingerprint ::
  "string comparator \<Rightarrow> ('n \<Rightarrow> string) \<Rightarrow> 'n ProjectManifest \<Rightarrow> string" where
  "getManifestFingerprint localeCompare numberToString manifest =
    (let files' =
       Sorting_Algorithms.sort (key fst localeCompare)
         (map (\<lambda>file. (name file, hash file)) (files manifest))
     in JSON_stringify numberToString
          (JObject
            [(''version'', JNumber (version manifest)),
             (''projectName'', JString (projectName manifest)),
             (''files'',
              JArray (map (\<lambda>(n, h). JObject [(''name'', JString n), (''hash'', JString h)])
                        files'))]))"

text \<open>
  A collation that honours one canonical equivalence of Unicode. ECMA-262 requires
  \<^verbatim>\<open>localeCompare\<close> to return zero for distinct strings that are canonically
  equivalent, such as the letter e followed by U+0301 COMBINING ACUTE ACCENT (in UTF-8 the
  bytes 65 CC 81) and the precomposed U+00E9 (the bytes C3 A9). \<open>canonical_collation\<close>
  composes the former to the latter and then compares code units; it stands for
  \<^verbatim>\<open>localeCompare\<close> only on names for which this is the one equivalence in play.
\<close>

fun compose_e_acute :: "string \<Rightarrow> string" where
  "compose_e_acute (a # b # c # s) =
    (if a = CHR 0x65 \<and> b = CHR 0xCC \<and> c = CHR 0x81 then CHR 0xC3 # CHR 0xA9 # compose_e_acute s
     else a # compose_e_acute (b # c # s))"
| "compose_e_acute s = s"

definition canonical_collation :: "string comparator" where
  "canonical_collation = key compose_e_acute default"

text \<open>
  The text of a whole number of magnitude below ten to the power of 21: its decimal digits,
  with a minus sign when it is negative. A number of larger magnitude is written with an exponent
  and a fraction with a point; \<open>whole_number_to_string\<close> is not their text. The manifests
  that the repository writes have \<^verbatim>\<open>version: 1\<close>.
\<close>

fun decimal :: "nat \<Rightarrow> string" where
  "decimal n = (if n < 10 then [digit_char n] else decimal (n div 10) @ [digit_char (n mod 10)])"

definition whole_number_to_string :: "int \<Rightarrow> string" where
  "whole_number_to_string i =
    (if i < 0 then CHR ''-'' # decimal (nat (- i)) else decimal (nat i))"

section \<open>Auxiliary definitions for the proofs\<close>

text \<open>The value that one iteration of the driver's loop writes for a key, if any.\<close>

definition keyValue :: "StrMap option \<Rightarrow> StrMap \<Rightarrow> StrMap \<Rightarrow> string \<Rightarrow> string option" where
  "keyValue base local remote key' =
    (case mergeKey key' (base_get base key') (map_of local key') (map_of remote key') of
       KConflict ct \<Rightarrow> map_of local key'
     | KAutoMerged a v \<Rightarrow> v
     | KUnchanged v \<Rightarrow> v)"

text \<open>The conflict entries that one iteration of the driver's loop appends for a key.\<close>

definition keyConflicts ::
  "StrMap option \<Rightarrow> StrMap \<Rightarrow> StrMap \<Rightarrow> string \<Rightarrow> ConflictEntry list" where
  "keyConflicts base local remote key' =
    (case mergeKey key' (base_get base key') (map_of local key') (map_of remote key') of
       KConflict ct \<Rightarrow> [\<lparr>ce_key = key', conflictType = ct, baseValue = base_get base key',
                              localValue = map_of local key', remoteValue = map_of remote key'\<rparr>]
     | KAutoMerged a v \<Rightarrow> []
     | KUnchanged v \<Rightarrow> [])"

text \<open>The value of a conflict entry on the side that a batch strategy names.\<close>

definition side :: "Strategy \<Rightarrow> ConflictEntry \<Rightarrow> string option" where
  "side strategy c = (if strategy = strategy_local then localValue c else remoteValue c)"

section \<open>Facts about the driver and the applier\<close>

lemma map_of_set_if_defined:
  "map_of (set_if_defined k v m) k' = (if k' = k \<and> v \<noteq> None then v else map_of m k')"
  by (cases v) (simp_all add: set_if_defined_def update_conv')

lemma map_of_set_or_delete:
  "map_of (set_or_delete k v m) k' = (if k' = k then v else map_of m k')"
  by (cases v) (simp_all add: set_or_delete_def update_conv' delete_conv')

lemma mergeStep_fst:
  "fst (mergeStep b l r (m, cs, as) k) = set_if_defined k (keyValue b l r k) m"
  by (simp add: mergeStep_def keyValue_def Let_def split: KeyMergeResult.splits)

lemma mergeStep_conflicts:
  "fst (snd (mergeStep b l r (m, cs, as) k)) = cs @ keyConflicts b l r k"
  by (simp add: mergeStep_def keyConflicts_def Let_def split: KeyMergeResult.splits)

lemma foldl_mergeStep_merged:
  "map_of (fst (foldl (mergeStep b l r) st ks)) k =
     (if k \<in> set ks \<and> keyValue b l r k \<noteq> None then keyValue b l r k else map_of (fst st) k)"
proof (induction ks arbitrary: st)
  case Nil
  then show ?case by simp
next
  case (Cons x xs)
  obtain m cs as where st: "st = (m, cs, as)" by (cases st)
  show ?case
    unfolding foldl_Cons Cons.IH st
    by (auto simp: mergeStep_fst map_of_set_if_defined)
qed

lemma foldl_mergeStep_conflicts:
  "fst (snd (foldl (mergeStep b l r) st ks)) = fst (snd st) @ concat (map (keyConflicts b l r) ks)"
proof (induction ks arbitrary: st)
  case Nil
  then show ?case by simp
next
  case (Cons x xs)
  obtain m cs as where st: "st = (m, cs, as)" by (cases st)
  show ?case
    unfolding foldl_Cons Cons.IH st
    by (simp add: mergeStep_conflicts)
qed

lemma merged_threeWay:
  "merged (threeWayMergeEnvFile fn b l r) = fst (mergeLoop b l r (allKeys b l r))"
  by (simp add: threeWayMergeEnvFile_def split: prod.splits)

lemma conflicts_threeWay:
  "conflicts (threeWayMergeEnvFile fn b l r) = fst (snd (mergeLoop b l r (allKeys b l r)))"
  by (simp add: threeWayMergeEnvFile_def split: prod.splits)

lemma autoMerged_threeWay:
  "autoMerged (threeWayMergeEnvFile fn b l r) = snd (snd (mergeLoop b l r (allKeys b l r)))"
  by (simp add: threeWayMergeEnvFile_def split: prod.splits)

lemma status_threeWay:
  "status (threeWayMergeEnvFile fn b l r) =
    (if conflicts (threeWayMergeEnvFile fn b l r) \<noteq> [] then conflicted
     else if autoMerged (threeWayMergeEnvFile fn b l r) \<noteq> [] then auto_merged else clean)"
  by (simp add: threeWayMergeEnvFile_def split: prod.splits)

lemma set_Set_add: "set (Set_add x s) = insert x (set s)"
  by (auto simp: Set_add_def)

lemma set_foldl_Set_add: "set (foldl (\<lambda>s x. Set_add x s) acc xs) = set acc \<union> set xs"
  by (induction xs arbitrary: acc) (auto simp: set_Set_add)

lemma set_new_Set: "set (new_Set xs) = set xs"
  by (simp add: new_Set_def set_foldl_Set_add)

lemma distinct_foldl_Set_add: "distinct acc \<Longrightarrow> distinct (foldl (\<lambda>s x. Set_add x s) acc xs)"
  by (induction xs arbitrary: acc) (auto simp: Set_add_def)

lemma distinct_new_Set: "distinct (new_Set xs)"
  by (simp add: new_Set_def distinct_foldl_Set_add)

lemma set_allKeys:
  "set (allKeys b l r) = set (base_keys b) \<union> fst ` set l \<union> fst ` set r"
  by (auto simp: allKeys_def set_new_Set)

lemma base_get_dom: "base_get b k \<noteq> None \<Longrightarrow> k \<in> set (base_keys b)"
  by (cases b) (auto simp: base_get_def base_keys_def map_of_eq_None_iff)

lemma present_in_allKeys:
  "base_get b k \<noteq> None \<or> map_of l k \<noteq> None \<or> map_of r k \<noteq> None \<Longrightarrow> k \<in> set (allKeys b l r)"
  using base_get_dom[of b k] by (auto simp: set_allKeys map_of_eq_None_iff)

lemma merged_threeWay_get:
  "map_of (merged (threeWayMergeEnvFile fn b l r)) k =
     (if k \<in> set (allKeys b l r) then keyValue b l r k else None)"
  by (simp add: merged_threeWay mergeLoop_def foldl_mergeStep_merged)

lemma conflicts_threeWay_eq:
  "conflicts (threeWayMergeEnvFile fn b l r) = concat (map (keyConflicts b l r) (allKeys b l r))"
  by (simp add: conflicts_threeWay mergeLoop_def foldl_mergeStep_conflicts)

lemma conflict_entry_threeWay:
  assumes "c \<in> set (conflicts (threeWayMergeEnvFile fn b l r))"
  shows "ce_key c \<in> set (allKeys b l r)"
    and "is_conflict (mergeKey (ce_key c) (base_get b (ce_key c)) (map_of l (ce_key c)) (map_of r (ce_key c)))"
    and "baseValue c = base_get b (ce_key c)"
    and "localValue c = map_of l (ce_key c)"
    and "remoteValue c = map_of r (ce_key c)"
proof -
  from assms obtain k where k: "k \<in> set (allKeys b l r)" and c: "c \<in> set (keyConflicts b l r k)"
    by (auto simp: conflicts_threeWay_eq)
  from c have "ce_key c = k \<and> is_conflict (mergeKey k (base_get b k) (map_of l k) (map_of r k))
     \<and> baseValue c = base_get b k \<and> localValue c = map_of l k \<and> remoteValue c = map_of r k"
    by (cases "mergeKey k (base_get b k) (map_of l k) (map_of r k)") (auto simp: keyConflicts_def)
  with k show "ce_key c \<in> set (allKeys b l r)"
    and "is_conflict (mergeKey (ce_key c) (base_get b (ce_key c)) (map_of l (ce_key c)) (map_of r (ce_key c)))"
    and "baseValue c = base_get b (ce_key c)"
    and "localValue c = map_of l (ce_key c)"
    and "remoteValue c = map_of r (ce_key c)" by simp_all
qed

lemma conflict_key_has_entry:
  assumes "is_conflict (mergeKey k (base_get b k) (map_of l k) (map_of r k))"
  shows "\<exists>c \<in> set (conflicts (threeWayMergeEnvFile fn b l r)). ce_key c = k"
proof -
  from assms have "map_of l k \<noteq> None \<or> map_of r k \<noteq> None"
    by (auto simp: mergeKey_def Let_def split: if_splits)
  then have "k \<in> set (allKeys b l r)" by (auto intro: present_in_allKeys)
  moreover from assms have "\<exists>c \<in> set (keyConflicts b l r k). ce_key c = k"
    by (cases "mergeKey k (base_get b k) (map_of l k) (map_of r k)") (auto simp: keyConflicts_def)
  ultimately show ?thesis by (auto simp: conflicts_threeWay_eq)
qed

lemma map_of_applyResolution:
  "map_of (applyResolution cs m r) k =
    (if res_key r = k then
       (case find (\<lambda>c. ce_key c = k) cs of
          None \<Rightarrow> map_of m k
        | Some c \<Rightarrow> (case choice r of
            Local \<Rightarrow> localValue c | Remote \<Rightarrow> remoteValue c | Base \<Rightarrow> baseValue c
          | Manual \<Rightarrow> manualValue r | Skip \<Rightarrow> map_of m k))
     else map_of m k)"
  by (auto simp: applyResolution_def map_of_set_or_delete split: option.splits ResolutionChoice.splits)

lemma applyResolutions_snoc:
  "applyResolutions mr (rs @ [r]) = applyResolution (conflicts mr) (applyResolutions mr rs) r"
  by (simp add: applyResolutions_def)

lemma foldl_applyResolution_skip:
  assumes "\<forall>r \<in> set rs. res_key r = k \<longrightarrow> choice r = Skip"
  shows "map_of (foldl (applyResolution cs) m rs) k = map_of m k"
  using assms
proof (induction rs arbitrary: m)
  case Nil
  then show ?case by simp
next
  case (Cons r rs)
  have "map_of (applyResolution cs m r) k = map_of m k"
    using Cons.prems by (auto simp: map_of_applyResolution split: option.splits)
  with Cons show ?case by simp
qed

lemma foldl_applyResolution_strategy:
  "map_of (foldl (applyResolution cs) m
      (map (\<lambda>conflict. \<lparr>res_key = ce_key conflict,
              choice = (if strategy = strategy_local then Local else Remote),
              manualValue = None\<rparr>) ds)) k =
    (if k \<in> ce_key ` set ds then
       (case find (\<lambda>c. ce_key c = k) cs of None \<Rightarrow> map_of m k | Some c \<Rightarrow> side strategy c)
     else map_of m k)"
proof (induction ds arbitrary: m)
  case Nil
  then show ?case by simp
next
  case (Cons d ds)
  show ?case
    unfolding list.map foldl_Cons Cons.IH
    by (auto simp: map_of_applyResolution side_def split: option.splits)
qed

lemma find_conflict_key:
  assumes "c \<in> set cs"
  obtains c' where "find (\<lambda>x. ce_key x = ce_key c) cs = Some c'" "c' \<in> set cs"
    "ce_key c' = ce_key c"
proof -
  from assms have "find (\<lambda>x. ce_key x = ce_key c) cs \<noteq> None"
    by (auto simp: find_None_iff)
  then obtain c' where f: "find (\<lambda>x. ce_key x = ce_key c) cs = Some c'" by auto
  then have "c' \<in> set cs" "ce_key c' = ce_key c"
    by (auto simp: find_Some_iff)
  with f that show thesis by blast
qed

lemma resolveAll_apply:
  assumes "c \<in> set (conflicts mr)"
  shows "\<exists>c' \<in> set (conflicts mr). ce_key c' = ce_key c \<and>
    map_of (applyResolutions mr (resolveAllConflicts mr strategy)) (ce_key c) = side strategy c'"
proof -
  from assms obtain c' where c': "find (\<lambda>x. ce_key x = ce_key c) (conflicts mr) = Some c'"
    "c' \<in> set (conflicts mr)" "ce_key c' = ce_key c"
    by (rule find_conflict_key)
  have "map_of (applyResolutions mr (resolveAllConflicts mr strategy)) (ce_key c) = side strategy c'"
    unfolding applyResolutions_def resolveAllConflicts_def foldl_applyResolution_strategy
    using assms c'(1) by auto
  with c'(2,3) show ?thesis by blast
qed

subsection \<open>The store\<close>

lemma applyLoop_heap_frame:
  assumes "read_conflicts h c = Some cs" "ref_conflicts mr = c" "c < a" "a < length h"
    "h ! a = MapCell m"
  shows "\<exists>h'. applyLoop_heap mr a h rs = Some h' \<and> length h' = length h
      \<and> (\<forall>i < length h. i \<noteq> a \<longrightarrow> h' ! i = h ! i)
      \<and> h' ! a = MapCell (foldl (applyResolution cs) m rs)"
  using assms
proof (induction rs arbitrary: h m)
  case Nil
  then show ?case by simp
next
  case (Cons r rs)
  let ?h1 = "h[a := MapCell (applyResolution cs m r)]"
  have step: "applyResolution_heap mr a h r = Some ?h1"
    using Cons.prems by (simp add: applyResolution_heap_def read_Map_def)
  have rc: "read_conflicts ?h1 c = Some cs"
    using Cons.prems by (auto simp: read_conflicts_def)
  have "\<exists>h'. applyLoop_heap mr a ?h1 rs = Some h' \<and> length h' = length ?h1
      \<and> (\<forall>i < length ?h1. i \<noteq> a \<longrightarrow> h' ! i = ?h1 ! i)
      \<and> h' ! a = MapCell (foldl (applyResolution cs) (applyResolution cs m r) rs)"
    by (rule Cons.IH[OF rc]) (use Cons.prems in simp_all)
  then show ?case using step by auto
qed

lemma deref_SomeD:
  assumes "deref h r = Some R"
  shows "read_Map h (ref_merged r) = Some (merged R)"
    and "read_conflicts h (ref_conflicts r) = Some (conflicts R)"
    and "read_autoMerged h (ref_autoMerged r) = Some (autoMerged R)"
    and "fileName R = ref_fileName r" and "status R = ref_status r"
  using assms by (auto simp: deref_def split: option.splits)

lemma read_conflicts_less: "read_conflicts h a = Some cs \<Longrightarrow> a < length h"
  by (auto simp: read_conflicts_def split: if_splits)

lemma deref_take:
  assumes "deref h r = Some R" "length h \<le> length h'" "take (length h) h' = h"
  shows "deref h' r = Some R"
proof -
  have nth: "\<And>i. i < length h \<Longrightarrow> h' ! i = h ! i"
    using assms(3) by (metis nth_take)
  show ?thesis using assms(1,2) nth
    by (auto simp: deref_def read_Map_def read_conflicts_def read_autoMerged_def
        split: option.splits if_splits)
qed

subsection \<open>Runs of the driver on the scenarios of the test suite\<close>

lemmas driver_defs =
  threeWayMergeEnvFile_def mergeLoop_def allKeys_def new_Set_def Set_add_def base_keys_def
  base_get_def mergeStep_def mergeKey_def set_if_defined_def

lemma example_divergent_edit:
  "threeWayMergeEnvFile ''test.env'' (Some [(''KEY'', ''base'')]) [(''KEY'', ''local'')]
      [(''KEY'', ''remote'')] =
    \<lparr>fileName = ''test.env'', status = conflicted, merged = [(''KEY'', ''local'')],
     conflicts = [\<lparr>ce_key = ''KEY'', conflictType = divergent_edit, baseValue = Some ''base'',
                   localValue = Some ''local'', remoteValue = Some ''remote''\<rparr>],
     autoMerged = []\<rparr>"
  by (simp add: driver_defs)

lemma example_local_deleted:
  "threeWayMergeEnvFile ''test.env'' (Some [(''KEY'', ''base'')]) [] [(''KEY'', ''remote'')] =
    \<lparr>fileName = ''test.env'', status = conflicted, merged = [],
     conflicts = [\<lparr>ce_key = ''KEY'', conflictType = edit_vs_delete, baseValue = Some ''base'',
                   localValue = None, remoteValue = Some ''remote''\<rparr>],
     autoMerged = []\<rparr>"
  by (simp add: driver_defs)

lemma example_disjoint_additions:
  "threeWayMergeEnvFile ''test.env'' None [(''KEY1'', ''value1'')] [(''KEY2'', ''value2'')] =
    \<lparr>fileName = ''test.env'', status = auto_merged,
     merged = [(''KEY1'', ''value1''), (''KEY2'', ''value2'')],
     conflicts = [],
     autoMerged = [\<lparr>am_key = ''KEY1'', action = added_from_local, am_value = Some ''value1''\<rparr>,
                   \<lparr>am_key = ''KEY2'', action = added_from_remote, am_value = Some ''value2''\<rparr>]\<rparr>"
  by (simp add: driver_defs)

lemma example_same_value:
  "threeWayMergeEnvFile ''test.env'' None [(''KEY'', ''same'')] [(''KEY'', ''same'')] =
    \<lparr>fileName = ''test.env'', status = clean, merged = [(''KEY'', ''same'')],
     conflicts = [], autoMerged = []\<rparr>"
  by (simp add: driver_defs)

lemma resolve_eq:
  "resolve k b l r = (if b = None \<and> l = None \<and> r = None then None else Some (mergeKey k b l r))"
  by (auto simp: mergeKey_def resolve_def Let_def)

subsection \<open>The fingerprint when no two names compare as equal\<close>

lemma filter_unique:
  assumes "distinct xs" "y \<in> set xs" "\<forall>x \<in> set xs. P x \<longleftrightarrow> x = y"
  shows "filter P xs = [y]"
  using assms
proof (induction xs)
  case Nil
  then show ?case by simp
next
  case (Cons x xs)
  show ?case
  proof (cases "x = y")
    case True
    with Cons.prems have "\<forall>z \<in> set xs. \<not> P z" by auto
    then have "filter P xs = []" by (simp add: filter_empty_conv)
    with True Cons.prems show ?thesis by simp
  next
    case False
    with Cons.prems have "filter P xs = [y]" by (intro Cons.IH) auto
    with False Cons.prems show ?thesis by simp
  qed
qed

lemma sort_tie_free_eq:
  assumes dx: "distinct xs" and dy: "distinct ys" and s: "set ys = set xs"
    and t: "\<forall>a \<in> set xs. \<forall>b \<in> set xs. compare cmp a b = Equiv \<longrightarrow> a = b"
  shows "Sorting_Algorithms.sort cmp ys = Sorting_Algorithms.sort cmp xs"
proof (rule sort_eqI)
  from dx dy s have "mset ys = mset xs"
    by (simp add: set_eq_iff_mset_eq_distinct)
  then show "mset ys = mset (Sorting_Algorithms.sort cmp xs)" by simp
next
  show "Sorting_Algorithms.sorted cmp (Sorting_Algorithms.sort cmp xs)" by simp
next
  fix y assume y: "y \<in> set ys"
  have eqv: "\<forall>x \<in> set xs. compare cmp y x = Equiv \<longleftrightarrow> x = y"
    using t y s by auto
  have "filter (\<lambda>x. compare cmp y x = Equiv) ys = [y]"
    using dy y eqv s by (intro filter_unique) auto
  moreover have "filter (\<lambda>x. compare cmp y x = Equiv) xs = [y]"
    using dx y eqv s by (intro filter_unique) auto
  ultimately show "filter (\<lambda>x. compare cmp y x = Equiv) ys =
      filter (\<lambda>x. compare cmp y x = Equiv) (Sorting_Algorithms.sort cmp xs)"
    by (simp add: stable_sort)
qed

lemma fingerprint_eqI:
  assumes v: "version m' = version m" and p: "projectName m' = projectName m"
    and d: "distinct (map name (files m))" and d': "distinct (map name (files m'))"
    and s: "(\<lambda>f. (name f, hash f)) ` set (files m') = (\<lambda>f. (name f, hash f)) ` set (files m)"
    and t: "\<forall>a \<in> set (files m). \<forall>b \<in> set (files m).
              compare localeCompare (name a) (name b) = Equiv \<longrightarrow> name a = name b"
  shows "getManifestFingerprint localeCompare numberToString m' = getManifestFingerprint localeCompare numberToString m"
proof -
  let ?p = "\<lambda>f. (name f, hash f)"
  let ?xs = "map ?p (files m)" and ?ys = "map ?p (files m')"
  have fst_p: "map fst (map ?p fs) = map name fs" for fs :: "FileEntry list"
    by simp
  have dx: "distinct (map fst ?xs)" and dy: "distinct (map fst ?ys)"
    using d d' by (simp_all only: fst_p)
  have "distinct ?xs" "distinct ?ys"
    using dx dy distinct_map[of fst] by blast+
  moreover have "set ?ys = set ?xs" using s by simp
  moreover have "\<forall>a \<in> set ?xs. \<forall>b \<in> set ?xs. compare (key fst localeCompare) a b = Equiv \<longrightarrow> a = b"
  proof (intro ballI impI)
    fix a b assume a: "a \<in> set ?xs" and b: "b \<in> set ?xs"
      and e: "compare (key fst localeCompare) a b = Equiv"
    from a b e t have "fst a = fst b" by auto
    with dx a b show "a = b"
      by (meson distinct_map inj_onD)
  qed
  ultimately have "Sorting_Algorithms.sort (key fst localeCompare) ?ys =
      Sorting_Algorithms.sort (key fst localeCompare) ?xs"
    by (rule sort_tie_free_eq)
  with v p show ?thesis by (simp add: getManifestFingerprint_def)
qed

text \<open>
  Where the file names are pairwise distinct and no two distinct names compare as equal,
  the sorted array is determined by the set of (name, hash) pairs, and so is the
  fingerprint, for every comparison and every way of writing numbers.
\<close>

lemma fingerprint_order_independent:
  fixes m :: "'n ProjectManifest"
  assumes "distinct (map name (files m))"
    and "\<forall>a \<in> set (files m). \<forall>b \<in> set (files m).
           compare localeCompare (name a) (name b) = Equiv \<longrightarrow> name a = name b"
  shows "(\<forall>fs. mset fs = mset (files m) \<longrightarrow>
            getManifestFingerprint localeCompare numberToString (m\<lparr>files := fs\<rparr>)
              = getManifestFingerprint localeCompare numberToString m)
    \<and> (\<forall>m'. version m' = version m \<and> projectName m' = projectName m
            \<and> distinct (map name (files m'))
            \<and> (\<lambda>f. (name f, hash f)) ` set (files m') = (\<lambda>f. (name f, hash f)) ` set (files m)
          \<longrightarrow> getManifestFingerprint localeCompare numberToString m' = getManifestFingerprint localeCompare numberToString m)"
proof (intro conjI allI impI)
  fix fs assume fs: "mset fs = mset (files m)"
  then have "mset (map name fs) = mset (map name (files m))" by simp
  with assms(1) have "distinct (map name fs)" by (metis mset_eq_imp_distinct_iff)
  moreover from fs have "set fs = set (files m)" by (rule mset_eq_setD)
  ultimately show "getManifestFingerprint localeCompare numberToString (m\<lparr>files := fs\<rparr>)
      = getManifestFingerprint localeCompare numberToString m"
    using assms by (intro fingerprint_eqI) simp_all
next
  fix m' :: "'n ProjectManifest"
  assume "version m' = version m \<and> projectName m' = projectName m
            \<and> distinct (map name (files m'))
            \<and> (\<lambda>f. (name f, hash f)) ` set (files m') = (\<lambda>f. (name f, hash f)) ` set (files m)"
  with assms show "getManifestFingerprint localeCompare numberToString m' = getManifestFingerprint localeCompare numberToString m"
    by (intro fingerprint_eqI) simp_all
qed

lemma fingerprint_order_independent_example:
  "distinct (map name
      [\<lparr>name = ''.env.local'', hash = ''h2'', fe_size = 20, updatedAt = ''2024-01-02'',
         fe_source = None\<rparr>,
       \<lparr>name = ''.env'', hash = ''h1'', fe_size = 10, updatedAt = ''2024-01-01'',
         fe_source = None\<rparr>])
   \<and> getManifestFingerprint canonical_collation whole_number_to_string
        \<lparr>version = (1::int), projectName = ''app'',
         files = [\<lparr>name = ''.env'', hash = ''h1'', fe_size = 10, updatedAt = ''2024-01-01'',
                    fe_source = None\<rparr>,
                  \<lparr>name = ''.env.local'', hash = ''h2'', fe_size = 20,
                    updatedAt = ''2024-01-02'', fe_source = None\<rparr>],
         pm_source = None\<rparr>
     = getManifestFingerprint canonical_collation whole_number_to_string
        \<lparr>version = (1::int), projectName = ''app'',
         files = [\<lparr>name = ''.env.local'', hash = ''h2'', fe_size = 20,
                    updatedAt = ''2024-01-02'', fe_source = None\<rparr>,
                  \<lparr>name = ''.env'', hash = ''h1'', fe_size = 10, updatedAt = ''2024-01-01'',
                    fe_source = None\<rparr>],
         pm_source = None\<rparr>"
proof -
  let ?a = "\<lparr>name = ''.env'', hash = ''h1'', fe_size = 10, updatedAt = ''2024-01-01'',
             fe_source = None\<rparr>"
  let ?b = "\<lparr>name = ''.env.local'', hash = ''h2'', fe_size = 20, updatedAt = ''2024-01-02'',
             fe_source = None\<rparr>"
  let ?m = "\<lparr>version = (1::int), projectName = ''app'', files = [?b, ?a], pm_source = None\<rparr>"
  have d: "distinct (map name (files ?m))" by simp
  have t: "\<forall>a \<in> set (files ?m). \<forall>b \<in> set (files ?m).
        compare canonical_collation (name a) (name b) = Equiv \<longrightarrow> name a = name b"
    by (simp add: canonical_collation_def)
  have p: "mset [?a, ?b] = mset (files ?m)" by (simp add: add_mset_commute)
  from fingerprint_order_independent [OF d t] p
  have "getManifestFingerprint canonical_collation whole_number_to_string (?m\<lparr>files := [?a, ?b]\<rparr>)
      = getManifestFingerprint canonical_collation whole_number_to_string ?m"
    by blast
  with d show ?thesis by simp
qed

section \<open>The claims\<close>

text \<open>
  Claim C1. \<^const>\<open>mergeKey\<close> implements the decision table of section 4.1 of the
  specification (\<^const>\<open>resolve\<close>): for every key and every combination of base, local
  and remote value, each a string or absent, for which the table has a row, the outcome
  returned is the outcome of the first row that applies. The table has a row for every
  combination but the one where all three values are absent, which the driver never passes
  (its keys come from the union of the three maps). In particular, with no base a key
  present on one side only is auto-merged from that side, and a key present on both sides
  with different values is a \<^const>\<open>new_key_collision\<close>; with a base, a key deleted on one
  side and changed (not deleted) on the other is an \<^const>\<open>edit_vs_delete\<close> conflict, and a
  key changed on both sides to different values is a \<^const>\<open>divergent_edit\<close> conflict.
\<close>

theorem mergeKey_decision_table:
  "resolve k b l r = (if b = None \<and> l = None \<and> r = None then None else Some (mergeKey k b l r))
   \<and> mergeKey k None (Some v) None = KAutoMerged added_from_local (Some v)
   \<and> mergeKey k None None (Some w) = KAutoMerged added_from_remote (Some w)
   \<and> (v \<noteq> w \<longrightarrow> mergeKey k None (Some v) (Some w) = KConflict new_key_collision)
   \<and> (w \<noteq> x \<longrightarrow> mergeKey k (Some x) None (Some w) = KConflict edit_vs_delete)
   \<and> (v \<noteq> x \<longrightarrow> mergeKey k (Some x) (Some v) None = KConflict edit_vs_delete)
   \<and> (v \<noteq> x \<and> w \<noteq> x \<and> v \<noteq> w \<longrightarrow>
        mergeKey k (Some x) (Some v) (Some w) = KConflict divergent_edit)"
proof -
  have "resolve k b l r =
      (if b = None \<and> l = None \<and> r = None then None else Some (mergeKey k b l r))"
    by (rule resolve_eq)
  moreover have "mergeKey k None (Some v) None = KAutoMerged added_from_local (Some v)"
    and "mergeKey k None None (Some w) = KAutoMerged added_from_remote (Some w)"
    and "v \<noteq> w \<longrightarrow> mergeKey k None (Some v) (Some w) = KConflict new_key_collision"
    and "w \<noteq> x \<longrightarrow> mergeKey k (Some x) None (Some w) = KConflict edit_vs_delete"
    and "v \<noteq> x \<longrightarrow> mergeKey k (Some x) (Some v) None = KConflict edit_vs_delete"
    and "v \<noteq> x \<and> w \<noteq> x \<and> v \<noteq> w \<longrightarrow>
        mergeKey k (Some x) (Some v) (Some w) = KConflict divergent_edit"
    by (simp_all add: mergeKey_def)
  ultimately show ?thesis by blast
qed

theorem mergeKey_decision_table_witness:
  "resolve ''K'' (Some ''o'') (Some ''l'') (Some ''r'') = Some (KConflict divergent_edit)
   \<and> mergeKey ''K'' (Some ''o'') (Some ''l'') (Some ''r'') = KConflict divergent_edit
   \<and> mergeKey ''K'' None (Some ''l'') (Some ''r'') = KConflict new_key_collision
   \<and> mergeKey ''K'' (Some ''o'') None (Some ''r'') = KConflict edit_vs_delete
   \<and> mergeKey ''K'' (Some ''o'') (Some ''l'') None = KConflict edit_vs_delete"
  using mergeKey_decision_table [of "''K''" "Some ''o''" "Some ''l''" "Some ''r''" "''l''" "''r''" "''o''"]
  by simp

text \<open>
  Claim C2 says that \<^const>\<open>applyResolutions\<close> rejects a resolution whose choice is
  \<^const>\<open>Manual\<close> and whose \<^const>\<open>manualValue\<close> is absent. The code has no statement that
  raises an error: the \<^verbatim>\<open>manual\<close> branch tests \<^verbatim>\<open>manualValue !== undefined\<close> and
  otherwise calls \<^verbatim>\<open>result.delete\<close>. On the divergent edit of the test suite the call
  returns a map, and the entry that \<^const>\<open>merged\<close> held for the key is gone from it.
\<close>

theorem manual_without_value_counterexample:
  "map_of (merged (threeWayMergeEnvFile ''test.env'' (Some [(''KEY'', ''base'')])
        [(''KEY'', ''local'')] [(''KEY'', ''remote'')])) ''KEY'' = Some ''local''
   \<and> applyResolutions
        (threeWayMergeEnvFile ''test.env'' (Some [(''KEY'', ''base'')]) [(''KEY'', ''local'')]
          [(''KEY'', ''remote'')])
        [\<lparr>res_key = ''KEY'', choice = Manual, manualValue = None\<rparr>] = []"
  by (simp add: example_divergent_edit applyResolutions_def applyResolution_def set_or_delete_def
      AList.delete_eq)

text \<open>
  Claim C2, as amended. \<^const>\<open>applyResolutions\<close> accepts a resolution whose choice is
  \<^const>\<open>Manual\<close> and whose \<^const>\<open>manualValue\<close> is absent, and returns a map: where the
  key of the resolution is the key of a conflict, the resolution removes the key from the
  result of the resolutions before it, as the choice of a side that deleted the key does,
  and where it is the key of no conflict the resolution changes nothing.
\<close>

theorem manual_without_value_deletes:
  assumes "choice r = Manual" and "manualValue r = None"
  shows "applyResolutions mergeResult (rs @ [r]) =
      (case find (\<lambda>c. ce_key c = res_key r) (conflicts mergeResult) of
         None \<Rightarrow> applyResolutions mergeResult rs
       | Some c \<Rightarrow> AList.delete (res_key r) (applyResolutions mergeResult rs))
    \<and> (find (\<lambda>c. ce_key c = res_key r) (conflicts mergeResult) \<noteq> None \<longrightarrow>
         map_of (applyResolutions mergeResult (rs @ [r])) (res_key r) = None)"
  using assms
  by (auto simp: applyResolutions_snoc applyResolution_def set_or_delete_def delete_conv'
      split: option.splits)

theorem manual_without_value_deletes_witness:
  "applyResolutions
     (threeWayMergeEnvFile ''test.env'' (Some [(''KEY'', ''base'')]) [(''KEY'', ''local'')]
        [(''KEY'', ''remote'')])
     ([\<lparr>res_key = ''KEY'', choice = Remote, manualValue = None\<rparr>]
       @ [\<lparr>res_key = ''KEY'', choice = Manual, manualValue = None\<rparr>]) =
   AList.delete ''KEY''
     (applyResolutions
       (threeWayMergeEnvFile ''test.env'' (Some [(''KEY'', ''base'')]) [(''KEY'', ''local'')]
          [(''KEY'', ''remote'')])
       [\<lparr>res_key = ''KEY'', choice = Remote, manualValue = None\<rparr>])
   \<and> map_of (applyResolutions
     (threeWayMergeEnvFile ''test.env'' (Some [(''KEY'', ''base'')]) [(''KEY'', ''local'')]
        [(''KEY'', ''remote'')])
     ([\<lparr>res_key = ''KEY'', choice = Remote, manualValue = None\<rparr>]
       @ [\<lparr>res_key = ''KEY'', choice = Manual, manualValue = None\<rparr>])) ''KEY'' = None"
  using manual_without_value_deletes [of "\<lparr>res_key = ''KEY'', choice = Manual, manualValue = None\<rparr>"
      "threeWayMergeEnvFile ''test.env'' (Some [(''KEY'', ''base'')]) [(''KEY'', ''local'')]
        [(''KEY'', ''remote'')]"
      "[\<lparr>res_key = ''KEY'', choice = Remote, manualValue = None\<rparr>]"]
  by (simp add: example_divergent_edit applyResolutions_def applyResolution_def
      set_or_delete_def)

text \<open>
  Claim C3. For every result of \<^const>\<open>threeWayMergeEnvFile\<close> and every conflict of it,
  applying the resolutions that \<^const>\<open>resolveAllConflicts\<close> generates for the local
  strategy leaves, at the key of the conflict, exactly what the local map has there: the
  local value if there is one and no entry if local deleted the key; and the same holds
  for the remote strategy and the remote map.
\<close>

theorem batch_resolution_correct:
  assumes "c \<in> set (conflicts (threeWayMergeEnvFile fn base local remote))"
  shows "map_of (applyResolutions (threeWayMergeEnvFile fn base local remote)
            (resolveAllConflicts (threeWayMergeEnvFile fn base local remote) strategy_local))
          (ce_key c) = map_of local (ce_key c)
    \<and> map_of (applyResolutions (threeWayMergeEnvFile fn base local remote)
            (resolveAllConflicts (threeWayMergeEnvFile fn base local remote) strategy_remote))
          (ce_key c) = map_of remote (ce_key c)"
proof -
  let ?R = "threeWayMergeEnvFile fn base local remote"
  have "map_of (applyResolutions ?R (resolveAllConflicts ?R s)) (ce_key c) =
      (if s = strategy_local then map_of local (ce_key c) else map_of remote (ce_key c))" for s
  proof -
    from resolveAll_apply[OF assms, of s] obtain c' where
      c': "c' \<in> set (conflicts ?R)" "ce_key c' = ce_key c"
      "map_of (applyResolutions ?R (resolveAllConflicts ?R s)) (ce_key c) = side s c'"
      by blast
    from conflict_entry_threeWay(4,5)[OF c'(1)] c'(2)
    have "side s c' = (if s = strategy_local then map_of local (ce_key c) else map_of remote (ce_key c))"
      by (simp add: side_def)
    with c'(3) show ?thesis by simp
  qed
  from this[of strategy_local] this[of strategy_remote] show ?thesis by simp
qed

theorem batch_resolution_correct_witness:
  "\<lparr>ce_key = ''KEY'', conflictType = edit_vs_delete, baseValue = Some ''base'',
     localValue = None, remoteValue = Some ''remote''\<rparr>
     \<in> set (conflicts (threeWayMergeEnvFile ''test.env'' (Some [(''KEY'', ''base'')]) []
           [(''KEY'', ''remote'')]))
   \<and> map_of (applyResolutions
        (threeWayMergeEnvFile ''test.env'' (Some [(''KEY'', ''base'')]) [] [(''KEY'', ''remote'')])
        (resolveAllConflicts
          (threeWayMergeEnvFile ''test.env'' (Some [(''KEY'', ''base'')]) [] [(''KEY'', ''remote'')])
          strategy_local)) ''KEY'' = None
   \<and> map_of (applyResolutions
        (threeWayMergeEnvFile ''test.env'' (Some [(''KEY'', ''base'')]) [] [(''KEY'', ''remote'')])
        (resolveAllConflicts
          (threeWayMergeEnvFile ''test.env'' (Some [(''KEY'', ''base'')]) [] [(''KEY'', ''remote'')])
          strategy_remote)) ''KEY'' = Some ''remote''"
proof -
  have m: "\<lparr>ce_key = ''KEY'', conflictType = edit_vs_delete, baseValue = Some ''base'',
     localValue = None, remoteValue = Some ''remote''\<rparr>
     \<in> set (conflicts (threeWayMergeEnvFile ''test.env'' (Some [(''KEY'', ''base'')]) []
           [(''KEY'', ''remote'')]))"
    by (simp add: example_local_deleted)
  from batch_resolution_correct [OF m] m show ?thesis by simp
qed

text \<open>
  Claim C4. Every result of \<^const>\<open>threeWayMergeEnvFile\<close> has status
  \<^const>\<open>conflicted\<close> if and only if its list of conflicts is not empty, status
  \<^const>\<open>auto_merged\<close> if and only if that list is empty and \<^const>\<open>autoMerged\<close> is not,
  and status \<^const>\<open>clean\<close> otherwise.
\<close>

theorem status_trichotomy:
  "(status (threeWayMergeEnvFile fn base local remote) = conflicted
      \<longleftrightarrow> conflicts (threeWayMergeEnvFile fn base local remote) \<noteq> [])
   \<and> (status (threeWayMergeEnvFile fn base local remote) = auto_merged
      \<longleftrightarrow> conflicts (threeWayMergeEnvFile fn base local remote) = []
        \<and> autoMerged (threeWayMergeEnvFile fn base local remote) \<noteq> [])
   \<and> (status (threeWayMergeEnvFile fn base local remote) = clean
      \<longleftrightarrow> conflicts (threeWayMergeEnvFile fn base local remote) = []
        \<and> autoMerged (threeWayMergeEnvFile fn base local remote) = [])"
  by (simp add: status_threeWay)

theorem status_trichotomy_witness:
  "status (threeWayMergeEnvFile ''test.env'' (Some [(''KEY'', ''base'')]) [(''KEY'', ''local'')]
      [(''KEY'', ''remote'')]) = conflicted
   \<and> status (threeWayMergeEnvFile ''test.env'' None [(''KEY1'', ''value1'')]
      [(''KEY2'', ''value2'')]) = auto_merged
   \<and> status (threeWayMergeEnvFile ''test.env'' None [(''KEY'', ''same'')]
      [(''KEY'', ''same'')]) = clean"
  using status_trichotomy [of "''test.env''" "Some [(''KEY'', ''base'')]" "[(''KEY'', ''local'')]"
      "[(''KEY'', ''remote'')]"]
    status_trichotomy [of "''test.env''" None "[(''KEY1'', ''value1'')]" "[(''KEY2'', ''value2'')]"]
    status_trichotomy [of "''test.env''" None "[(''KEY'', ''same'')]" "[(''KEY'', ''same'')]"]
  by (simp add: example_divergent_edit example_disjoint_additions example_same_value)

text \<open>
  Claim C5 says that \<^const>\<open>applyResolutions\<close> leaves the provisional value of a
  conflict unchanged whenever the resolution that matches the conflict by key has the
  choice \<^const>\<open>Skip\<close>. The applier does not look a resolution up for each conflict: it
  runs through the list of resolutions and applies each one that is not a skip. For the
  divergent edit of the test suite and a list that holds a skip and then a choice of remote
  for the same key, the lookup by key finds the skip, the provisional value is the local
  one, and the result holds the remote value.
\<close>

theorem skip_then_remote_counterexample:
  "conflicts (threeWayMergeEnvFile ''test.env'' (Some [(''KEY'', ''base'')]) [(''KEY'', ''local'')]
      [(''KEY'', ''remote'')]) =
     [\<lparr>ce_key = ''KEY'', conflictType = divergent_edit, baseValue = Some ''base'',
        localValue = Some ''local'', remoteValue = Some ''remote''\<rparr>]
   \<and> find (\<lambda>r. res_key r = ''KEY'')
        [\<lparr>res_key = ''KEY'', choice = Skip, manualValue = None\<rparr>,
         \<lparr>res_key = ''KEY'', choice = Remote, manualValue = None\<rparr>] =
       Some \<lparr>res_key = ''KEY'', choice = Skip, manualValue = None\<rparr>
   \<and> map_of (merged (threeWayMergeEnvFile ''test.env'' (Some [(''KEY'', ''base'')])
        [(''KEY'', ''local'')] [(''KEY'', ''remote'')])) ''KEY'' = Some ''local''
   \<and> map_of (applyResolutions
        (threeWayMergeEnvFile ''test.env'' (Some [(''KEY'', ''base'')]) [(''KEY'', ''local'')]
          [(''KEY'', ''remote'')])
        [\<lparr>res_key = ''KEY'', choice = Skip, manualValue = None\<rparr>,
         \<lparr>res_key = ''KEY'', choice = Remote, manualValue = None\<rparr>]) ''KEY'' = Some ''remote''"
  by (simp add: example_divergent_edit applyResolutions_def applyResolution_def
      set_or_delete_def)

text \<open>
  Claim C5, as amended. For every input of \<^const>\<open>threeWayMergeEnvFile\<close> and every key whose
  outcome is a conflict, the key has a conflict entry, and the merged map holds the local
  value for the key if local has one and no entry if it has none. \<^const>\<open>applyResolutions\<close>
  leaves that provisional value as it is for every conflict for which every resolution with
  the key of the conflict has the choice \<^const>\<open>Skip\<close>, and so for every conflict with no
  matching resolution.
\<close>

theorem prefer_local_preview:
  assumes "is_conflict (mergeKey k (base_get base k) (map_of local k) (map_of remote k))"
  shows "(\<exists>c \<in> set (conflicts (threeWayMergeEnvFile fn base local remote)). ce_key c = k)
    \<and> map_of (merged (threeWayMergeEnvFile fn base local remote)) k = map_of local k
    \<and> ((\<forall>r \<in> set resolutions. res_key r = k \<longrightarrow> choice r = Skip) \<longrightarrow>
         map_of (applyResolutions (threeWayMergeEnvFile fn base local remote) resolutions) k
           = map_of local k)"
proof -
  let ?R = "threeWayMergeEnvFile fn base local remote"
  from assms have present: "map_of local k \<noteq> None \<or> map_of remote k \<noteq> None"
    by (auto simp: mergeKey_def Let_def split: if_splits)
  then have "k \<in> set (allKeys base local remote)" by (auto intro: present_in_allKeys)
  moreover from assms have "keyValue base local remote k = map_of local k"
    by (cases "mergeKey k (base_get base k) (map_of local k) (map_of remote k)")
      (simp_all add: keyValue_def)
  ultimately have preview: "map_of (merged ?R) k = map_of local k"
    by (simp add: merged_threeWay_get)
  have "map_of (applyResolutions ?R resolutions) k = map_of (merged ?R) k"
    if "\<forall>r \<in> set resolutions. res_key r = k \<longrightarrow> choice r = Skip"
    unfolding applyResolutions_def using that by (rule foldl_applyResolution_skip)
  with preview conflict_key_has_entry[OF assms, of fn] show ?thesis by simp
qed

theorem prefer_local_preview_witness:
  "is_conflict (mergeKey ''KEY'' (base_get (Some [(''KEY'', ''base'')]) ''KEY'')
      (map_of [(''KEY'', ''local'')] ''KEY'') (map_of [(''KEY'', ''remote'')] ''KEY''))
   \<and> map_of (merged (threeWayMergeEnvFile ''test.env'' (Some [(''KEY'', ''base'')])
        [(''KEY'', ''local'')] [(''KEY'', ''remote'')])) ''KEY'' = Some ''local''
   \<and> map_of (applyResolutions (threeWayMergeEnvFile ''test.env'' (Some [(''KEY'', ''base'')])
        [(''KEY'', ''local'')] [(''KEY'', ''remote'')])
        [\<lparr>res_key = ''OTHER'', choice = Remote, manualValue = None\<rparr>,
         \<lparr>res_key = ''KEY'', choice = Skip, manualValue = None\<rparr>]) ''KEY'' = Some ''local''"
proof -
  have a: "is_conflict (mergeKey ''KEY'' (base_get (Some [(''KEY'', ''base'')]) ''KEY'')
      (map_of [(''KEY'', ''local'')] ''KEY'') (map_of [(''KEY'', ''remote'')] ''KEY''))"
    by (simp add: mergeKey_def base_get_def)
  from prefer_local_preview [OF a, of "''test.env''"
      "[\<lparr>res_key = ''OTHER'', choice = Remote, manualValue = None\<rparr>,
        \<lparr>res_key = ''KEY'', choice = Skip, manualValue = None\<rparr>]"] a
  show ?thesis by simp
qed

text \<open>
  Claim C6 (convergence). If the local value of a key equals its remote value, both absent
  included, then whatever the base value is the outcome of \<^const>\<open>mergeKey\<close> is not a
  conflict.
\<close>

theorem mergeKey_convergence:
  "l = r \<Longrightarrow> \<not> is_conflict (mergeKey k b l r)"
  by (auto simp: mergeKey_def Let_def)

theorem mergeKey_convergence_witness:
  "\<not> is_conflict (mergeKey ''K'' (Some ''o'') (Some ''n'') (Some ''n''))
   \<and> \<not> is_conflict (mergeKey ''K'' (Some ''o'') None None)"
  using mergeKey_convergence [of "Some ''n''" "Some ''n''" "''K''" "Some ''o''"]
    mergeKey_convergence [of None None "''K''" "Some ''o''"]
  by simp

text \<open>
  Claim C7 (totality). For all base, local and remote values, each absent or a string,
  \<^const>\<open>mergeKey\<close> returns a result of exactly one of the three kinds unchanged,
  auto-merged and conflict; no path of it throws or ends without a result. The kind is
  unchanged when local and remote agree and are present or there is no base, conflict when
  they differ and, without a base, both are present or, with a base, both differ from it,
  and auto-merged in the remaining cases.
\<close>

theorem mergeKey_total:
  "((\<exists>v. mergeKey k b l r = KUnchanged v) \<and> l = r \<and> (b = None \<or> l \<noteq> None)
    \<or> (\<exists>a v. mergeKey k b l r = KAutoMerged a v)
         \<and> (if b = None then l = None \<longleftrightarrow> r \<noteq> None
             else l \<noteq> r \<and> (l = b \<or> r = b) \<or> l = None \<and> r = None)
    \<or> (\<exists>c. mergeKey k b l r = KConflict c) \<and> l \<noteq> r
         \<and> (if b = None then l \<noteq> None \<and> r \<noteq> None else l \<noteq> b \<and> r \<noteq> b))
   \<and> (is_unchanged (mergeKey k b l r) \<and> \<not> is_auto_merged (mergeKey k b l r)
         \<and> \<not> is_conflict (mergeKey k b l r)
       \<or> is_auto_merged (mergeKey k b l r) \<and> \<not> is_unchanged (mergeKey k b l r)
         \<and> \<not> is_conflict (mergeKey k b l r)
       \<or> is_conflict (mergeKey k b l r) \<and> \<not> is_unchanged (mergeKey k b l r)
         \<and> \<not> is_auto_merged (mergeKey k b l r))"
proof -
  have kinds: "(\<exists>v. mergeKey k b l r = KUnchanged v) \<and> l = r \<and> (b = None \<or> l \<noteq> None)
    \<or> (\<exists>a v. mergeKey k b l r = KAutoMerged a v)
         \<and> (if b = None then l = None \<longleftrightarrow> r \<noteq> None
             else l \<noteq> r \<and> (l = b \<or> r = b) \<or> l = None \<and> r = None)
    \<or> (\<exists>c. mergeKey k b l r = KConflict c) \<and> l \<noteq> r
         \<and> (if b = None then l \<noteq> None \<and> r \<noteq> None else l \<noteq> b \<and> r \<noteq> b)"
    by (cases b; cases l; cases r) (auto simp: mergeKey_def Let_def)
  have one: "is_unchanged M \<and> \<not> is_auto_merged M \<and> \<not> is_conflict M
       \<or> is_auto_merged M \<and> \<not> is_unchanged M \<and> \<not> is_conflict M
       \<or> is_conflict M \<and> \<not> is_unchanged M \<and> \<not> is_auto_merged M" for M
    by (cases M) simp_all
  from kinds one show ?thesis by blast
qed

theorem mergeKey_total_witness:
  "is_conflict (mergeKey ''K'' (Some ''o'') (Some ''x'') (Some ''y''))
   \<and> is_auto_merged (mergeKey ''K'' None None (Some ''y''))
   \<and> is_unchanged (mergeKey ''K'' None None None)"
  using mergeKey_total [of "''K''" "Some ''o''" "Some ''x''" "Some ''y''"]
    mergeKey_total [of "''K''" None None "Some ''y''"]
    mergeKey_total [of "''K''" None None None]
  by auto

text \<open>
  Claim C8. If \<^const>\<open>allConflictsResolved\<close> returns true then every conflict of the
  result has a resolution with the same key whose choice is not \<^const>\<open>Skip\<close>, also when
  the list of resolutions has several entries for one key.
\<close>

theorem allConflictsResolved_only_if:
  assumes "allConflictsResolved mergeResult resolutions"
  shows "\<forall>c \<in> set (conflicts mergeResult).
           \<exists>r \<in> set resolutions. res_key r = ce_key c \<and> choice r \<noteq> Skip"
proof
  fix c assume c: "c \<in> set (conflicts mergeResult)"
  from assms c have k: "ce_key c \<in> res_key ` set resolutions"
    and f: "(case find (\<lambda>r. res_key r = ce_key c) resolutions of
              None \<Rightarrow> True | Some r \<Rightarrow> choice r \<noteq> Skip)"
    by (auto simp: allConflictsResolved_def list_all_iff)
  from k have "find (\<lambda>r. res_key r = ce_key c) resolutions \<noteq> None"
    by (auto simp: find_None_iff)
  then obtain r where r: "find (\<lambda>r. res_key r = ce_key c) resolutions = Some r" by auto
  then have "r \<in> set resolutions" "res_key r = ce_key c"
    by (auto simp: find_Some_iff)
  moreover from f r have "choice r \<noteq> Skip" by simp
  ultimately show "\<exists>r \<in> set resolutions. res_key r = ce_key c \<and> choice r \<noteq> Skip" by blast
qed

theorem allConflictsResolved_only_if_witness:
  "allConflictsResolved
     (threeWayMergeEnvFile ''test.env'' (Some [(''KEY'', ''base'')]) [(''KEY'', ''local'')]
        [(''KEY'', ''remote'')])
     [\<lparr>res_key = ''KEY'', choice = Remote, manualValue = None\<rparr>,
      \<lparr>res_key = ''KEY'', choice = Skip, manualValue = None\<rparr>]
   \<and> (\<exists>r \<in> set [\<lparr>res_key = ''KEY'', choice = Remote, manualValue = None\<rparr>,
                     \<lparr>res_key = ''KEY'', choice = Skip, manualValue = None\<rparr>].
          res_key r = ''KEY'' \<and> choice r \<noteq> Skip)"
proof -
  let ?R = "threeWayMergeEnvFile ''test.env'' (Some [(''KEY'', ''base'')]) [(''KEY'', ''local'')]
        [(''KEY'', ''remote'')]"
  let ?c = "\<lparr>ce_key = ''KEY'', conflictType = divergent_edit, baseValue = Some ''base'',
             localValue = Some ''local'', remoteValue = Some ''remote''\<rparr>"
  let ?rs = "[\<lparr>res_key = ''KEY'', choice = Remote, manualValue = None\<rparr>,
      \<lparr>res_key = ''KEY'', choice = Skip, manualValue = None\<rparr>]"
  have a: "allConflictsResolved ?R ?rs"
    by (simp add: example_divergent_edit allConflictsResolved_def)
  have c: "?c \<in> set (conflicts ?R)"
    by (simp add: example_divergent_edit)
  have "\<exists>r \<in> set ?rs. res_key r = ce_key ?c \<and> choice r \<noteq> Skip"
    using allConflictsResolved_only_if [OF a] c by (rule bspec)
  then have "\<exists>r \<in> set ?rs. res_key r = ''KEY'' \<and> choice r \<noteq> Skip"
    by (simp only: ConflictEntry.simps)
  with a show ?thesis by (rule conjI)
qed

text \<open>
  Claim C9. For every manifest whose file names are pairwise distinct, the fingerprint is
  the same for every order of the files array. \<^const>\<open>getManifestFingerprint\<close> sorts the
  files by name to that end, but the order of the sorted array is decided by
  \<^verbatim>\<open>localeCompare\<close> alone and the sort is stable, so two files whose names compare as
  equal keep the order in which they were discovered. ECMA-262 requires
  \<^verbatim>\<open>localeCompare\<close> to return zero for distinct strings that are canonically
  equivalent. The two names below are distinct, both are displayed as an e with an acute
  accent followed by \<^verbatim>\<open>.env\<close>, they compare as equal, and the code returns different
  fingerprints for the two orders of the same two files.
\<close>

theorem fingerprint_collation_tie:
  "distinct (map name
      [\<lparr>name = CHR 0xC3 # CHR 0xA9 # ''.env'', hash = ''h1'', fe_size = 10,
         updatedAt = ''2024-01-01'', fe_source = None\<rparr>,
       \<lparr>name = CHR 0x65 # CHR 0xCC # CHR 0x81 # ''.env'', hash = ''h2'', fe_size = 20,
         updatedAt = ''2024-01-02'', fe_source = None\<rparr>])
   \<and> compare canonical_collation (CHR 0xC3 # CHR 0xA9 # ''.env'')
         (CHR 0x65 # CHR 0xCC # CHR 0x81 # ''.env'') = Equiv
   \<and> getManifestFingerprint canonical_collation whole_number_to_string
        \<lparr>version = (1::int), projectName = ''app'',
         files = [\<lparr>name = CHR 0xC3 # CHR 0xA9 # ''.env'', hash = ''h1'', fe_size = 10,
                    updatedAt = ''2024-01-01'', fe_source = None\<rparr>,
                  \<lparr>name = CHR 0x65 # CHR 0xCC # CHR 0x81 # ''.env'', hash = ''h2'', fe_size = 20,
                    updatedAt = ''2024-01-02'', fe_source = None\<rparr>],
         pm_source = None\<rparr>
     \<noteq> getManifestFingerprint canonical_collation whole_number_to_string
        \<lparr>version = (1::int), projectName = ''app'',
         files = [\<lparr>name = CHR 0x65 # CHR 0xCC # CHR 0x81 # ''.env'', hash = ''h2'', fe_size = 20,
                    updatedAt = ''2024-01-02'', fe_source = None\<rparr>,
                  \<lparr>name = CHR 0xC3 # CHR 0xA9 # ''.env'', hash = ''h1'', fe_size = 10,
                    updatedAt = ''2024-01-01'', fe_source = None\<rparr>],
         pm_source = None\<rparr>"
  by (simp add: getManifestFingerprint_def canonical_collation_def JSON_quote_def
      escape_char_def whole_number_to_string_def)

text \<open>
  Claim C10. \<^verbatim>\<open>applyResolutions\<close> does not change its inputs. For every store in
  which the reference denotes a \<^verbatim>\<open>FileMergeResult\<close> and every list of resolutions,
  the call returns an address that the store did not have, every cell the store had before
  the call is the same after it, so the reference still denotes the same
  \<^verbatim>\<open>FileMergeResult\<close> (with the same merged map, conflicts and auto-merge entries),
  and the new cell holds the map that \<^const>\<open>applyResolutions\<close> computes.
\<close>

theorem applyResolutions_frame:
  assumes "deref h mergeResult = Some R"
  shows "\<exists>h'. applyResolutions_heap h mergeResult resolutions = Some (length h, h')
    \<and> length h' = Suc (length h)
    \<and> take (length h) h' = h
    \<and> h' ! length h = MapCell (applyResolutions R resolutions)
    \<and> deref h' mergeResult = Some R"
proof -
  note d = deref_SomeD[OF assms]
  let ?h1 = "h @ [MapCell (merged R)]"
  have c: "ref_conflicts mergeResult < length h" using d(2) by (rule read_conflicts_less)
  have rc: "read_conflicts ?h1 (ref_conflicts mergeResult) = Some (conflicts R)"
    using d(2) c by (auto simp: read_conflicts_def nth_append)
  obtain h' where h': "applyLoop_heap mergeResult (length h) ?h1 resolutions = Some h'"
    "length h' = length ?h1" "\<forall>i < length ?h1. i \<noteq> length h \<longrightarrow> h' ! i = ?h1 ! i"
    "h' ! length h = MapCell (foldl (applyResolution (conflicts R)) (merged R) resolutions)"
    using applyLoop_heap_frame[OF rc refl c, of "merged R" resolutions] by auto
  have tk: "take (length h) h' = h"
    using h'(2,3) by (auto simp: list_eq_iff_nth_eq nth_append)
  have "applyResolutions_heap h mergeResult resolutions = Some (length h, h')"
    using d(1) h'(1) by (simp add: applyResolutions_heap_def Let_def)
  moreover have "deref h' mergeResult = Some R"
    by (rule deref_take[OF assms _ tk]) (use h'(2) in simp)
  ultimately show ?thesis using h'(2,4) tk by (simp add: applyResolutions_def)
qed

theorem applyResolutions_frame_witness:
  "deref [ConflictsCell [\<lparr>ce_key = ''KEY'', conflictType = divergent_edit,
             baseValue = Some ''base'', localValue = Some ''local'',
             remoteValue = Some ''remote''\<rparr>],
          AutoMergedCell [], MapCell [(''KEY'', ''local'')]]
     \<lparr>ref_fileName = ''test.env'', ref_status = conflicted, ref_merged = 2, ref_conflicts = 0,
      ref_autoMerged = 1\<rparr>
    = Some (threeWayMergeEnvFile ''test.env'' (Some [(''KEY'', ''base'')]) [(''KEY'', ''local'')]
        [(''KEY'', ''remote'')])
   \<and> applyResolutions_heap
       [ConflictsCell [\<lparr>ce_key = ''KEY'', conflictType = divergent_edit,
             baseValue = Some ''base'', localValue = Some ''local'',
             remoteValue = Some ''remote''\<rparr>],
        AutoMergedCell [], MapCell [(''KEY'', ''local'')]]
       \<lparr>ref_fileName = ''test.env'', ref_status = conflicted, ref_merged = 2, ref_conflicts = 0,
        ref_autoMerged = 1\<rparr>
       [\<lparr>res_key = ''KEY'', choice = Remote, manualValue = None\<rparr>]
     = Some (3, [ConflictsCell [\<lparr>ce_key = ''KEY'', conflictType = divergent_edit,
             baseValue = Some ''base'', localValue = Some ''local'',
             remoteValue = Some ''remote''\<rparr>],
          AutoMergedCell [], MapCell [(''KEY'', ''local'')], MapCell [(''KEY'', ''remote'')]])"
proof -
  let ?h = "[ConflictsCell [\<lparr>ce_key = ''KEY'', conflictType = divergent_edit,
             baseValue = Some ''base'', localValue = Some ''local'',
             remoteValue = Some ''remote''\<rparr>],
          AutoMergedCell [], MapCell [(''KEY'', ''local'')]]"
  let ?r = "\<lparr>ref_fileName = ''test.env'', ref_status = conflicted, ref_merged = 2,
             ref_conflicts = 0, ref_autoMerged = 1\<rparr>"
  let ?rs = "[\<lparr>res_key = ''KEY'', choice = Remote, manualValue = None\<rparr>]"
  have d: "deref ?h ?r = Some (threeWayMergeEnvFile ''test.env'' (Some [(''KEY'', ''base'')])
        [(''KEY'', ''local'')] [(''KEY'', ''remote'')])"
    by (simp add: example_divergent_edit deref_def read_Map_def read_conflicts_def
        read_autoMerged_def)
  from applyResolutions_frame [OF d, of ?rs] obtain h' where h':
    "applyResolutions_heap ?h ?r ?rs = Some (length ?h, h')" "length h' = Suc (length ?h)"
    "take (length ?h) h' = ?h"
    "h' ! length ?h = MapCell (applyResolutions (threeWayMergeEnvFile ''test.env''
        (Some [(''KEY'', ''base'')]) [(''KEY'', ''local'')] [(''KEY'', ''remote'')]) ?rs)"
    by blast
  have "h' = take (length ?h) h' @ [h' ! length ?h]"
    using h'(2) by (metis lessI take_Suc_conv_app_nth take_all order_refl)
  then have "h' = ?h @ [MapCell [(''KEY'', ''remote'')]]"
    unfolding h'(3,4)
    by (simp add: example_divergent_edit applyResolutions_def applyResolution_def
        set_or_delete_def)
  with h'(1) d show ?thesis by simp
qed

end
